theory Spec2Isabelle
  imports Main
begin

section \<open>Bytes, lines and the library functions the engine calls\<close>

text \<open>
  A Go \<open>[]byte\<close> or \<open>string\<close> is a \<open>char list\<close>: one \<open>char\<close> per byte.
  Offsets are \<open>nat\<close>; the slice \<open>b[i:j]\<close> is \<open>take (j - i) (drop i b)\<close>.
\<close>

type_synonym bytes = string

definition slice :: "bytes \<Rightarrow> nat \<Rightarrow> nat \<Rightarrow> bytes" where
  "slice b i j = take (j - i) (drop i b)"

text \<open>\<open>bytes.IndexByte\<close>: the offset of the first occurrence, \<open>None\<close> for Go's \<open>-1\<close>.\<close>

fun indexByte :: "bytes \<Rightarrow> char \<Rightarrow> nat option" where
  "indexByte [] d = None"
| "indexByte (c # cs) d = (if c = d then Some 0 else map_option Suc (indexByte cs d))"

text \<open>\<open>bytes.HasPrefix\<close> / \<open>strings.HasPrefix\<close> and \<open>bytes.HasSuffix\<close>.\<close>

definition hasPrefix :: "bytes \<Rightarrow> bytes \<Rightarrow> bool" where
  "hasPrefix s p = (take (length p) s = p)"

definition hasSuffix :: "bytes \<Rightarrow> bytes \<Rightarrow> bool" where
  "hasSuffix s p = (length p \<le> length s \<and> drop (length s - length p) s = p)"

text \<open>\<open>strings.TrimPrefix\<close>.\<close>

definition trimPrefix :: "bytes \<Rightarrow> bytes \<Rightarrow> bytes" where
  "trimPrefix s p = (if hasPrefix s p then drop (length p) s else s)"

text \<open>
  \<open>bytes.TrimLeft\<close>, \<open>bytes.TrimRight\<close> and \<open>bytes.Trim\<close> with a cutset of ASCII
  bytes (the engine only ever passes \<open>"\n\r"\<close> or \<open>"\r\n"\<close>).
\<close>

definition trimLeftSet :: "bytes \<Rightarrow> bytes \<Rightarrow> bytes" where
  "trimLeftSet s cutset = dropWhile (\<lambda>c. c \<in> set cutset) s"

definition trimRightSet :: "bytes \<Rightarrow> bytes \<Rightarrow> bytes" where
  "trimRightSet s cutset = rev (dropWhile (\<lambda>c. c \<in> set cutset) (rev s))"

definition trimSet :: "bytes \<Rightarrow> bytes \<Rightarrow> bytes" where
  "trimSet s cutset = trimRightSet (trimLeftSet s cutset) cutset"

text \<open>
  \<open>strings.TrimSpace\<close> and \<open>bytes.TrimSpace\<close> remove leading and trailing white space
  as defined by Unicode. On UTF-8 text these are the code points U+0009..U+000D, U+0020,
  U+0085, U+00A0, U+1680, U+2000..U+200A, U+2028, U+2029, U+202F, U+205F and U+3000;
  \<open>spaceRunes\<close> lists their encodings. A byte that does not start (or end) one of these
  encodings decodes to something that is not white space and stops the trimming.
\<close>

definition spaceRunes :: "bytes list" where
  "spaceRunes =
     [[CHR 0x09], [CHR 0x0A], [CHR 0x0B], [CHR 0x0C], [CHR 0x0D], [CHR 0x20],
      [CHR 0xC2, CHR 0x85], [CHR 0xC2, CHR 0xA0],
      [CHR 0xE1, CHR 0x9A, CHR 0x80],
      [CHR 0xE2, CHR 0x80, CHR 0x80], [CHR 0xE2, CHR 0x80, CHR 0x81],
      [CHR 0xE2, CHR 0x80, CHR 0x82], [CHR 0xE2, CHR 0x80, CHR 0x83],
      [CHR 0xE2, CHR 0x80, CHR 0x84], [CHR 0xE2, CHR 0x80, CHR 0x85],
      [CHR 0xE2, CHR 0x80, CHR 0x86], [CHR 0xE2, CHR 0x80, CHR 0x87],
      [CHR 0xE2, CHR 0x80, CHR 0x88], [CHR 0xE2, CHR 0x80, CHR 0x89],
      [CHR 0xE2, CHR 0x80, CHR 0x8A],
      [CHR 0xE2, CHR 0x80, CHR 0xA8], [CHR 0xE2, CHR 0x80, CHR 0xA9],
      [CHR 0xE2, CHR 0x80, CHR 0xAF],
      [CHR 0xE2, CHR 0x81, CHR 0x9F],
      [CHR 0xE3, CHR 0x80, CHR 0x80]]"

text \<open>
  The width in bytes of the white-space rune at the front (at the back) of the text,
  0 if there is none. No encoding in \<open>spaceRunes\<close> is a prefix or a suffix of
  another, so at most one of them applies.
\<close>

definition leadingSpace :: "bytes \<Rightarrow> nat" where
  "leadingSpace s = (case List.find (\<lambda>e. hasPrefix s e) spaceRunes of None \<Rightarrow> 0 | Some e \<Rightarrow> length e)"

definition trailingSpace :: "bytes \<Rightarrow> nat" where
  "trailingSpace s = (case List.find (\<lambda>e. hasSuffix s e) spaceRunes of None \<Rightarrow> 0 | Some e \<Rightarrow> length e)"

lemma leadingSpace_Nil: "leadingSpace [] = 0"
  by (simp add: leadingSpace_def spaceRunes_def hasPrefix_def)

lemma trailingSpace_Nil: "trailingSpace [] = 0"
  by (simp add: trailingSpace_def spaceRunes_def hasSuffix_def)

function trimSpaceLeft :: "bytes \<Rightarrow> bytes" where
  "trimSpaceLeft s = (if leadingSpace s = 0 then s else trimSpaceLeft (drop (leadingSpace s) s))"
  by pat_completeness auto
termination
proof (relation "measure length")
  fix s :: bytes
  assume "leadingSpace s \<noteq> 0"
  moreover from this have "s \<noteq> []" using leadingSpace_Nil by auto
  ultimately show "(drop (leadingSpace s) s, s) \<in> measure length" by simp
qed simp

function trimSpaceRight :: "bytes \<Rightarrow> bytes" where
  "trimSpaceRight s = (if trailingSpace s = 0 then s else trimSpaceRight (take (length s - trailingSpace s) s))"
  by pat_completeness auto
termination
proof (relation "measure length")
  fix s :: bytes
  assume "trailingSpace s \<noteq> 0"
  moreover from this have "s \<noteq> []" using trailingSpace_Nil by auto
  ultimately show "(take (length s - trailingSpace s) s, s) \<in> measure length" by simp
qed simp

declare trimSpaceLeft.simps [simp del] trimSpaceRight.simps [simp del]

definition trimSpace :: "bytes \<Rightarrow> bytes" where
  "trimSpace s = trimSpaceRight (trimSpaceLeft s)"

section \<open>Regular expressions of the semantic mask\<close>

text \<open>
  The six patterns of \<open>sanitize\<close> use only: the ASCII word boundary \<open>\b\<close>, a class
  of ASCII bytes repeated greedily between a lower and an optional upper bound, and an
  alternation of literals. A pattern is a sequence of such atoms. Go's \<open>regexp\<close> returns
  the leftmost match and, among those, the one a backtracking search prefers (a greedy
  repetition tries its longest run first); \<open>matchHere\<close> is that search at one position
  and gives the length of the preferred match.
\<close>

type_synonym cls = "char list"

datatype atom =
    WordBoundary
  | Rep cls nat "nat option"
  | AltLit "bytes list"

definition inClass :: "cls \<Rightarrow> char \<Rightarrow> bool" where
  "inClass cs c = List.member cs c"

definition digit :: cls where
  "digit = ''0123456789''"

definition upper :: cls where
  "upper = ''ABCDEFGHIJKLMNOPQRSTUVWXYZ''"

definition lower :: cls where
  "lower = ''abcdefghijklmnopqrstuvwxyz''"

text \<open>\<open>\w\<close>, the class behind \<open>\b\<close>: \<open>[0-9A-Za-z_]\<close>.\<close>

definition wordClass :: cls where
  "wordClass = digit @ upper @ lower @ ''_''"

text \<open>Is the byte before (after) a position a word character; none at either end of the text.\<close>

definition isWordAt :: "char option \<Rightarrow> bool" where
  "isWordAt p = (case p of None \<Rightarrow> False | Some c \<Rightarrow> inClass wordClass c)"

definition headOpt :: "bytes \<Rightarrow> char option" where
  "headOpt s = (case s of [] \<Rightarrow> None | c # _ \<Rightarrow> Some c)"

text \<open>The byte before the position reached after consuming \<open>m\<close>, given the one before it.\<close>

definition lastOr :: "char option \<Rightarrow> bytes \<Rightarrow> char option" where
  "lastOr p m = (if m = [] then p else Some (last m))"

fun firstSome :: "'a option list \<Rightarrow> 'a option" where
  "firstSome [] = None"
| "firstSome (None # xs) = firstSome xs"
| "firstSome (Some y # xs) = Some y"

text \<open>
  A greedy repetition \<open>c{lo,hi}\<close> first tries to take one more byte of the class (if the
  upper bound allows it) and to match what remains; only when that fails, and the lower
  bound is met, it stops and hands over to the rest of the pattern.
\<close>

fun matchHere :: "atom list \<Rightarrow> char option \<Rightarrow> bytes \<Rightarrow> nat option" where
  "matchHere [] p s = Some 0"
| "matchHere (WordBoundary # r) p s =
     (if isWordAt p \<noteq> isWordAt (headOpt s) then matchHere r p s else None)"
| "matchHere (Rep c lo hi # r) p [] = (if lo = 0 then matchHere r p [] else None)"
| "matchHere (Rep c lo hi # r) p (x # xs) =
     (case (if hi \<noteq> Some 0 \<and> inClass c x
            then matchHere (Rep c (lo - 1) (map_option (\<lambda>h. h - 1) hi) # r) (Some x) xs
            else None) of
        Some n \<Rightarrow> Some (Suc n)
      | None \<Rightarrow> if lo = 0 then matchHere r p (x # xs) else None)"
| "matchHere (AltLit ls # r) p s =
     firstSome (map (\<lambda>l. if hasPrefix s l
                          then map_option (\<lambda>n. length l + n) (matchHere r (lastOr p l) (drop (length l) s))
                          else None) ls)"

text \<open>
  \<open>ReplaceAllString\<close>: scan from the left; where the pattern matches, emit the replacement
  and resume after the match, otherwise copy one byte. \<open>skip\<close> counts the bytes of the
  current match still to be passed over, \<open>p\<close> is the byte before the position. None of
  the six patterns matches the empty string, and the replacements contain no \<open>$\<close>.
\<close>

fun replaceAllFrom :: "atom list \<Rightarrow> bytes \<Rightarrow> nat \<Rightarrow> char option \<Rightarrow> bytes \<Rightarrow> bytes" where
  "replaceAllFrom re repl skip p [] = []"
| "replaceAllFrom re repl (Suc k) p (c # cs) = replaceAllFrom re repl k (Some c) cs"
| "replaceAllFrom re repl 0 p (c # cs) =
     (case matchHere re p (c # cs) of
        Some (Suc n) \<Rightarrow> repl @ replaceAllFrom re repl n (Some c) cs
      | _ \<Rightarrow> c # replaceAllFrom re repl 0 (Some c) cs)"

definition replaceAllString :: "atom list \<Rightarrow> bytes \<Rightarrow> bytes \<Rightarrow> bytes" where
  "replaceAllString re s repl = replaceAllFrom re repl 0 None s"

text \<open>\<^verbatim>\<open>\b\d{4}[-/]?\d{2}[-/]?\d{2}\b\<close>\<close>

definition reDate :: "atom list" where
  "reDate = [WordBoundary, Rep digit 4 (Some 4), Rep ''-/'' 0 (Some 1), Rep digit 2 (Some 2),
             Rep ''-/'' 0 (Some 1), Rep digit 2 (Some 2), WordBoundary]"

text \<open>\<^verbatim>\<open>\b\d{2}:\d{2}:\d{2}\b\<close>\<close>

definition reTime :: "atom list" where
  "reTime = [WordBoundary, Rep digit 2 (Some 2), Rep '':'' 1 (Some 1), Rep digit 2 (Some 2),
             Rep '':'' 1 (Some 1), Rep digit 2 (Some 2), WordBoundary]"

text \<open>\<^verbatim>\<open>[A-Za-z0-9._%+-]+@[A-Za-z0-9.-]+\.[A-Za-z]{2,}\<close>\<close>

definition reEmail :: "atom list" where
  "reEmail = [Rep (upper @ lower @ digit @ ''._%+-'') 1 None, Rep ''@'' 1 (Some 1),
              Rep (upper @ lower @ digit @ ''.-'') 1 None,
              Rep ''.'' 1 (Some 1), Rep (upper @ lower) 2 None]"

text \<open>\<^verbatim>\<open>\b[0-9a-fA-F]{7,40}\b\<close>\<close>

definition reHash :: "atom list" where
  "reHash = [WordBoundary, Rep (digit @ ''abcdef'' @ ''ABCDEF'') 7 (Some 40), WordBoundary]"

text \<open>\<^verbatim>\<open>\b(19|20)\d{2}\b\<close>\<close>

definition reYear :: "atom list" where
  "reYear = [WordBoundary, AltLit [''19'', ''20''], Rep digit 2 (Some 2), WordBoundary]"

text \<open>\<^verbatim>\<open>\s+\<close>; Go's \<open>\s\<close> is \<open>[\t\n\f\r ]\<close>: no vertical tab, no Unicode space.\<close>

definition reSpaces :: "atom list" where
  "reSpaces = [Rep [CHR 0x09, CHR 0x0A, CHR 0x0C, CHR 0x0D, CHR 0x20] 1 None]"

section \<open>Header matcher\<close>

text \<open>The closure \<open>sanitize\<close> of \<open>headerSemanticallyMatches\<close>: the masks in source order.\<close>

definition sanitize :: "bytes \<Rightarrow> bytes" where
  "sanitize s =
     (let text1 = replaceAllString reDate s ''<DATE>'';
          text2 = replaceAllString reTime text1 ''<TIME>'';
          text3 = replaceAllString reEmail text2 ''<EMAIL>'';
          text4 = replaceAllString reHash text3 ''<HASH>'';
          text5 = replaceAllString reYear text4 ''<YEAR>'';
          text6 = replaceAllString reSpaces text5 '' ''
      in trimSpace text6)"

definition headerSemanticallyMatches :: "bytes \<Rightarrow> bytes \<Rightarrow> bool" where
  "headerSemanticallyMatches existing expected =
     (if length existing = 0 \<or> length expected = 0 then False
      else sanitize existing = sanitize expected)"

definition headersStructurallyEqual :: "bytes \<Rightarrow> bytes \<Rightarrow> bool" where
  "headersStructurallyEqual a b =
     (trimRightSet a [CHR 0x0D, CHR 0x0A] = trimRightSet b [CHR 0x0D, CHR 0x0A])"

section \<open>Header locator\<close>

abbreviation NL :: char where
  "NL \<equiv> CHR 0x0A"

text \<open>The end offset of a shebang line if present, else 0.\<close>

definition findShebangEnd :: "bytes \<Rightarrow> nat" where
  "findShebangEnd content =
     (if hasPrefix content ''#!''
      then (case indexByte content NL of Some nl \<Rightarrow> nl + 1 | None \<Rightarrow> length content)
      else 0)"

definition isLineComment :: "bytes \<Rightarrow> bool" where
  "isLineComment line =
     (let s = trimSpace line in
      if s = [] then True
      else if hasPrefix s ''//'' \<or> hasPrefix s ''#'' \<or> hasPrefix s '';'' then True
      else if hasPrefix s ''/*'' \<or> hasPrefix s ''*'' \<or> hasPrefix s ''*/'' then True
      else False)"

text \<open>
  \<open>strings.HasPrefix(strings.ToLower(s), pat)\<close> for a pattern of lower-case ASCII
  letters. \<open>ToLower\<close> works rune by rune; the runes it maps to an ASCII letter are the
  letter itself, its upper-case form and, for \<open>k\<close>, U+212A KELVIN SIGN (bytes E2 84 AA;
  U+0130, mapped to \<open>i\<close>, is the only other one).
\<close>

definition asciiLower :: "char \<Rightarrow> char" where
  "asciiLower c = (case map_of (zip upper lower) c of Some l \<Rightarrow> l | None \<Rightarrow> c)"

fun lowerHasPrefix :: "bytes \<Rightarrow> bytes \<Rightarrow> bool" where
  "lowerHasPrefix s [] = True"
| "lowerHasPrefix [] (p # ps) = False"
| "lowerHasPrefix (c # cs) (p # ps) =
     (if asciiLower c = p then lowerHasPrefix cs ps
      else if p = CHR ''k'' \<and> hasPrefix (c # cs) [CHR 0xE2, CHR 0x84, CHR 0xAA]
           then lowerHasPrefix (drop 2 cs) ps
      else False)"

text \<open>
  Is the line a top-of-file directive that must stay above code: \<open>//go:...\<close>,
  \<open>// +build\<close>, \<open>//nolint\<close>, \<open>//lint:\<close>, or \<open># shellcheck\<close>.
\<close>

definition isGoPreambleDirective :: "bytes \<Rightarrow> bool" where
  "isGoPreambleDirective line =
     (let s = trimSpace line in
      if \<not> hasPrefix s ''//''
      then (if hasPrefix s ''#''
            then (let s2 = trimSpace (trimPrefix s ''#'')
                  in if lowerHasPrefix s2 ''shellcheck'' then True else False)
            else False)
      else (let s' = trimSpace (trimPrefix s ''//'') in
            if s' = [] then False
            else if hasPrefix s' ''go:'' then True
            else if hasPrefix s' ''+build'' then True
            else if hasPrefix s' ''nolint'' then True
            else if hasPrefix s' ''lint:'' then True
            else False))"

text \<open>Advance from \<open>pos\<close> past blank lines and directive lines.\<close>

function skipBlankAndDirectives :: "bytes \<Rightarrow> nat \<Rightarrow> nat" where
  "skipBlankAndDirectives content pos =
     (if pos < length content
      then (let nl = indexByte (drop pos content) NL;
                end = (case nl of None \<Rightarrow> length content | Some n \<Rightarrow> pos + n + 1);
                line = slice content pos end;
                trimmed = trimSpace line
            in if trimmed = [] \<or> isGoPreambleDirective line
               then skipBlankAndDirectives content end
               else pos)
      else pos)"
  by pat_completeness auto
termination
  by (relation "measure (\<lambda>(content, pos). length content - pos)")
     (auto split: option.splits)

declare skipBlankAndDirectives.simps [simp del]

text \<open>
  \<open>bufio.Reader.ReadString('\n')\<close> on an in-memory reader: the line up to and including
  the delimiter, what is left to read, and whether the end of the input was hit first
  (\<open>io.EOF\<close>; there is no other error).
\<close>

fun readString :: "bytes \<Rightarrow> bytes \<times> bytes \<times> bool" where
  "readString [] = ([], [], True)"
| "readString (c # cs) =
     (if c = NL then ([c], cs, False)
      else (case readString cs of (l, r, eof) \<Rightarrow> (c # l, r, eof)))"

lemma readString_rest_length:
  "readString s = (l, r, eof) \<Longrightarrow> \<not> eof \<Longrightarrow> length r < length s"
proof (induction s arbitrary: l r eof)
  case Nil
  then show ?case by simp
next
  case (Cons c cs)
  show ?case
  proof (cases "c = NL")
    case True
    with Cons.prems show ?thesis by simp
  next
    case False
    obtain l' r' e' where rs: "readString cs = (l', r', e')"
      by (cases "readString cs") auto
    with False Cons.prems have "r = r'" "eof = e'" by simp_all
    with Cons.IH [OF rs] Cons.prems(2) show ?thesis by simp
  qed
qed

text \<open>The read loop of \<open>detectHeaderBlock\<close>: what ends up in \<open>buf\<close>.\<close>

function collectHeader :: "bytes \<Rightarrow> bytes" where
  "collectHeader rd =
     (case readString rd of (line, rest, eof) \<Rightarrow>
        if trimSpace line \<noteq> [] \<and> \<not> isLineComment line then []
        else if isGoPreambleDirective line then []
        else line @ (if eof then [] else collectHeader rest))"
  by pat_completeness auto
termination
  by (relation "measure length") (auto dest: readString_rest_length [OF sym])

declare collectHeader.simps [simp del]

text \<open>Go's \<open>nil\<close> slice and the empty slice are both \<open>[]\<close>: the engine only takes \<open>len\<close>.\<close>

definition detectHeaderBlock :: "bytes \<Rightarrow> bytes \<times> nat \<times> nat" where
  "detectHeaderBlock content =
     (let pos0 = findShebangEnd content;
          pos = skipBlankAndDirectives content pos0;
          buf = collectHeader (drop pos content)
      in if length buf = 0 then ([], 0, 0)
         else (buf, pos, pos + length buf))"

text \<open>
  The end offset of the line that starts at \<open>pos\<close> (past its newline, or the end of
  the content), as the line loops compute it.
\<close>

definition lineEndAt :: "bytes \<Rightarrow> nat \<Rightarrow> nat" where
  "lineEndAt content pos =
     (case indexByte (drop pos content) NL of None \<Rightarrow> length content | Some n \<Rightarrow> pos + n + 1)"

section \<open>Rewrite planner\<close>

text \<open>
  The line loops of \<open>upsertHeaderBeforeDirectives\<close>: from offset \<open>i\<close> of \<open>middle\<close>,
  pass over whole lines while the line satisfies \<open>keep\<close>; a kept line without a newline
  ends the loop. The result is the offset reached.
\<close>

function scanLines :: "(bytes \<Rightarrow> bool) \<Rightarrow> bytes \<Rightarrow> nat \<Rightarrow> nat" where
  "scanLines keep middle i =
     (if i < length middle
      then (let nl = indexByte (drop i middle) NL;
                lineEnd = (case nl of None \<Rightarrow> length middle | Some n \<Rightarrow> i + n + 1);
                line = slice middle i lineEnd
            in if keep line
               then (if nl = None then lineEnd else scanLines keep middle lineEnd)
               else i)
      else i)"
  by pat_completeness auto
termination
  by (relation "measure (\<lambda>(keep, middle, i). length middle - i)")
     (auto split: option.splits)

declare scanLines.simps [simp del]

text \<open>The three line tests of those loops, in source order.\<close>

definition blankOrDirective :: "bytes \<Rightarrow> bool" where
  "blankOrDirective line = (trimSpace line = [] \<or> isGoPreambleDirective line)"

definition blankOrCommentPrefix :: "bytes \<Rightarrow> bool" where
  "blankOrCommentPrefix line =
     (let trimmed = trimSpace line in
      if trimmed = [] then True
      else if hasPrefix trimmed ''//'' \<or> hasPrefix trimmed ''#'' \<or> hasPrefix trimmed ''/*''
              \<or> hasPrefix trimmed ''*'' then True
      else False)"

definition blankOrLineComment :: "bytes \<Rightarrow> bool" where
  "blankOrLineComment line = (trimSpace line = [] \<or> isLineComment line)"

text \<open>The final assembly into \<open>out\<close>.\<close>

definition assemble ::
  "bytes \<Rightarrow> nat \<Rightarrow> bytes \<Rightarrow> bytes \<Rightarrow> bytes \<Rightarrow> bytes \<Rightarrow> bytes \<Rightarrow> bytes" where
  "assemble head shebangEnd header directivesAndBlanks topComments preservedHeader rest =
     head
     @ (if shebangEnd > 0 then [NL] else [])
     @ header
     @ (if \<not> hasSuffix header [NL] then [NL] else [])
     @ [NL]
     @ (let trimmedDir = trimSet directivesAndBlanks [NL, CHR 0x0D]
        in if length trimmedDir > 0 then trimmedDir @ [NL, NL] else [])
     @ (let trimmedTop = trimSet topComments [NL, CHR 0x0D]
        in if length trimmedTop > 0 then trimmedTop @ [NL, NL] else [])
     @ (if length (trimSpace preservedHeader) > 0
        then trimSet preservedHeader [NL, CHR 0x0D] @ [NL, NL] else [])
     @ rest"

definition upsertHeaderBeforeDirectives :: "bytes \<Rightarrow> bytes \<Rightarrow> bool \<Rightarrow> bytes" where
  "upsertHeaderBeforeDirectives content header preserveExisting =
     (case detectHeaderBlock content of (existing, start, end) \<Rightarrow>
      let shebangEnd = findShebangEnd content;
          head = take shebangEnd content;
          middle = drop shebangEnd content;
          dirStart = scanLines blankOrDirective middle 0;
          directivesAndBlanks = take dirStart middle;
          commEnd = scanLines blankOrCommentPrefix middle dirStart;
          topComments = slice middle dirStart commEnd;
          rest = drop commEnd middle
      in if length existing > 0 \<and> start \<ge> shebangEnd
         then (let preservedHeader = (if preserveExisting then existing else []);
                   content' = take start content @ drop end content;
                   shebangEnd' = findShebangEnd content';
                   head' = take shebangEnd' content';
                   middle' = drop shebangEnd' content';
                   dirStart' = scanLines blankOrDirective middle' 0;
                   directivesAndBlanks' = take dirStart' middle';
                   commEnd' = scanLines blankOrLineComment middle' dirStart';
                   topComments' = slice middle' dirStart' commEnd';
                   rest' = drop commEnd' middle'
               in assemble head' shebangEnd' header directivesAndBlanks' topComments'
                    preservedHeader rest')
         else assemble head shebangEnd header directivesAndBlanks topComments [] rest)"

section \<open>Decision policy\<close>

text \<open>
  A compiled \<open>*regexp.Regexp\<close> of a rule is used only through \<open>MatchString\<close>: it is a
  predicate on paths, \<open>None\<close> for \<open>nil\<close>.
\<close>

record TemplateRule =
  TemplatePath :: string
  Include :: "(string \<Rightarrow> bool) option"
  Exclude :: "(string \<Rightarrow> bool) option"
  Content :: bytes

text \<open>
  The \<open>GitMetadata\<close> interface. Every caller in the engine discards the error result of
  these methods, so each is the value it returns.
\<close>

record GitMetadata =
  Author :: "string \<Rightarrow> string"
  CreationDate :: "string \<Rightarrow> string"
  LastUpdateDate :: "string \<Rightarrow> string"
  Touched :: "string \<Rightarrow> bool"

record Options =
  Root :: string
  Rules :: "TemplateRule list"
  Force :: bool
  Verbose :: bool
  Git :: "GitMetadata option"
  RespectGit :: bool

text \<open>\<open>Action\<close> is a Go string type; a result built without it has the empty action.\<close>

type_synonym Action = string

definition ActionNone :: Action where "ActionNone = ''none''"
definition ActionInsert :: Action where "ActionInsert = ''insert''"
definition ActionReplace :: Action where "ActionReplace = ''replace''"
definition ActionRemove :: Action where "ActionRemove = ''remove''"

datatype error = ReadError | WriteError

record FileResult =
  Path :: string
  Action :: Action
  Err :: "error option"
  Warning :: string

text \<open>
  The file system as the engine sees it: the bytes of each readable file, and the paths
  where \<open>os.WriteFile\<close> fails (leaving the file as it was).
\<close>

record World =
  files :: "string \<Rightarrow> bytes option"
  writeFails :: "string \<Rightarrow> bool"

definition readFile :: "World \<Rightarrow> string \<Rightarrow> error + bytes" where
  "readFile w path = (case files w path of None \<Rightarrow> Inl ReadError | Some b \<Rightarrow> Inr b)"

definition writeFile :: "World \<Rightarrow> string \<Rightarrow> bytes \<Rightarrow> error option \<times> World" where
  "writeFile w path b =
     (if writeFails w path then (Some WriteError, w)
      else (None, w\<lparr>files := (files w)(path \<mapsto> b)\<rparr>))"

text \<open>\<open>filepath.Clean\<close> and \<open>filepath.Rel\<close> are parameters of the model.\<close>

record FilePath =
  Clean :: "string \<Rightarrow> string"
  Rel :: "string \<Rightarrow> string \<Rightarrow> string option"

text \<open>
  \<open>utf8.Valid\<close>: ASCII; C2..DF with one continuation byte; E0 with A0..BF, E1..EC and
  EE..EF with 80..BF, ED with 80..9F, each followed by one more continuation byte;
  F0 with 90..BF, F1..F3 with 80..BF, F4 with 80..8F, each followed by two more.
\<close>

definition byteBetween :: "nat \<Rightarrow> nat \<Rightarrow> char \<Rightarrow> bool" where
  "byteBetween lo hi c = (lo \<le> of_char c \<and> (of_char c :: nat) \<le> hi)"

fun utf8Valid :: "bytes \<Rightarrow> bool" where
  "utf8Valid [] = True"
| "utf8Valid (a # s) =
     (if byteBetween 0x00 0x7F a then utf8Valid s
      else (case s of [] \<Rightarrow> False | b # s1 \<Rightarrow>
        if byteBetween 0xC2 0xDF a then byteBetween 0x80 0xBF b \<and> utf8Valid s1
        else (case s1 of [] \<Rightarrow> False | c # s2 \<Rightarrow>
          if byteBetween 0xE0 0xEF a
          then byteBetween (if a = CHR 0xE0 then 0xA0 else 0x80) (if a = CHR 0xED then 0x9F else 0xBF) b
               \<and> byteBetween 0x80 0xBF c \<and> utf8Valid s2
          else (case s2 of [] \<Rightarrow> False | d # s3 \<Rightarrow>
            if byteBetween 0xF0 0xF4 a
            then byteBetween (if a = CHR 0xF0 then 0x90 else 0x80) (if a = CHR 0xF4 then 0x8F else 0xBF) b
                 \<and> byteBetween 0x80 0xBF c \<and> byteBetween 0x80 0xBF d \<and> utf8Valid s3
            else False))))"

text \<open>\<open>strings.ReplaceAll\<close> with a non-empty literal \<open>old\<close> (the three placeholders).\<close>

fun replaceAllLit :: "bytes \<Rightarrow> bytes \<Rightarrow> bytes \<Rightarrow> bytes" where
  "replaceAllLit [] old new = []"
| "replaceAllLit (c # cs) old new =
     (if old \<noteq> [] \<and> hasPrefix (c # cs) old
      then new @ replaceAllLit (drop (length old) (c # cs)) old new
      else c # replaceAllLit cs old new)"

definition fileResult :: "string \<Rightarrow> Action \<Rightarrow> FileResult" where
  "fileResult path a = \<lparr>Path = path, Action = a, Err = None, Warning = []\<rparr>"

definition fileError :: "string \<Rightarrow> error \<Rightarrow> FileResult" where
  "fileError path err = \<lparr>Path = path, Action = [], Err = Some err, Warning = []\<rparr>"

definition isTemplatePath :: "FilePath \<Rightarrow> Options \<Rightarrow> string \<Rightarrow> bool" where
  "isTemplatePath fp e path = list_ex (\<lambda>tr. Clean fp path = Clean fp (TemplatePath tr)) (Rules e)"

definition relativePath :: "FilePath \<Rightarrow> Options \<Rightarrow> string \<Rightarrow> string" where
  "relativePath fp e path = (case Rel fp (Root e) path of None \<Rightarrow> path | Some rel \<Rightarrow> rel)"

text \<open>
  The two \<open>continue\<close> guards shared by \<open>hasAnyTemplateForPath\<close>,
  \<open>findMatchingTemplateIndex\<close> and \<open>filterTemplatesForPath\<close>.
\<close>

definition ruleSkipped :: "TemplateRule \<Rightarrow> string \<Rightarrow> bool" where
  "ruleSkipped tr rel =
     (if (case Exclude tr of None \<Rightarrow> False | Some m \<Rightarrow> m rel) then True
      else if (case Include tr of None \<Rightarrow> False | Some m \<Rightarrow> \<not> m rel) then True
      else False)"

fun hasAnyTemplateIn :: "TemplateRule list \<Rightarrow> string \<Rightarrow> bool" where
  "hasAnyTemplateIn [] rel = False"
| "hasAnyTemplateIn (tr # trs) rel = (if ruleSkipped tr rel then hasAnyTemplateIn trs rel else True)"

definition hasAnyTemplateForPath :: "Options \<Rightarrow> string \<Rightarrow> bool" where
  "hasAnyTemplateForPath e rel = hasAnyTemplateIn (Rules e) rel"

text \<open>Not valid UTF-8: an early result and \<open>ok = False\<close>; otherwise the empty result and \<open>ok = True\<close>.\<close>

definition handleNonUTF8File :: "Options \<Rightarrow> string \<Rightarrow> bytes \<Rightarrow> FileResult \<times> bool" where
  "handleNonUTF8File e path content =
     (if utf8Valid content then (\<lparr>Path = [], Action = [], Err = None, Warning = []\<rparr>, True)
      else if Force e
      then (\<lparr>Path = path, Action = ActionNone, Err = None,
             Warning = ''non-UTF8/binary file, forced to check''\<rparr>, False)
      else (fileResult path ActionNone, False))"

text \<open>\<open>renderTemplates\<close> calls the methods of \<open>Git\<close> at once: a \<open>nil\<close> interface panics (\<open>None\<close>).\<close>

definition renderTemplates :: "Options \<Rightarrow> string \<Rightarrow> TemplateRule list option" where
  "renderTemplates e path =
     (case Git e of None \<Rightarrow> None
      | Some g \<Rightarrow>
         (let author0 = Author g path;
              cr = CreationDate g path;
              lu = LastUpdateDate g path;
              author = (if author0 = [] then ''unknown'' else author0)
          in Some (map (\<lambda>tr.
                 (let s1 = replaceAllLit (Content tr) ''%author%'' author;
                      s2 = replaceAllLit s1 ''%creation_date%'' cr;
                      s3 = replaceAllLit s2 ''%last_update_date%'' lu
                  in \<lparr>TemplatePath = TemplatePath tr, Include = Include tr,
                       Exclude = Exclude tr, Content = s3\<rparr>)) (Rules e))))"

text \<open>The index of the first rule that matches, \<open>None\<close> for Go's \<open>-1\<close>. (The verbose message is not modelled.)\<close>

fun findMatchingFrom :: "nat \<Rightarrow> string \<Rightarrow> TemplateRule list \<Rightarrow> bytes \<Rightarrow> nat option" where
  "findMatchingFrom i rel [] currentHeader = None"
| "findMatchingFrom i rel (tr # trs) currentHeader =
     (if ruleSkipped tr rel then findMatchingFrom (Suc i) rel trs currentHeader
      else if headerSemanticallyMatches currentHeader (Content tr) then Some i
      else findMatchingFrom (Suc i) rel trs currentHeader)"

definition findMatchingTemplateIndex :: "string \<Rightarrow> TemplateRule list \<Rightarrow> bytes \<Rightarrow> nat option" where
  "findMatchingTemplateIndex rel trules currentHeader = findMatchingFrom 0 rel trules currentHeader"

definition filterTemplatesForPath :: "string \<Rightarrow> TemplateRule list \<Rightarrow> TemplateRule list" where
  "filterTemplatesForPath rel trules = filter (\<lambda>tr. \<not> ruleSkipped tr rel) trules"

definition shouldSkipDueToGit :: "Options \<Rightarrow> string \<Rightarrow> bool" where
  "shouldSkipDueToGit e path =
     (if \<not> RespectGit e \<or> Option.is_none (Git e) then False
      else (case Git e of None \<Rightarrow> False | Some g \<Rightarrow> \<not> Touched g path))"

definition handleMatchedHeader ::
  "Options \<Rightarrow> World \<Rightarrow> string \<Rightarrow> bool \<Rightarrow> bytes \<Rightarrow> TemplateRule \<Rightarrow> bytes \<Rightarrow> FileResult \<times> World" where
  "handleMatchedHeader e w path fix currentHeader rendered content =
     (if \<not> fix then (fileResult path ActionNone, w)
      else if currentHeader = Content rendered then (fileResult path ActionNone, w)
      else if headersStructurallyEqual currentHeader (Content rendered)
           then (fileResult path ActionNone, w)
      else if headerSemanticallyMatches currentHeader (Content rendered) \<and> shouldSkipDueToGit e path
           then (fileResult path ActionNone, w)
      else (let nb = upsertHeaderBeforeDirectives content (Content rendered) True
            in case writeFile w path nb of
                 (Some err, w') \<Rightarrow> (fileError path err, w')
               | (None, w') \<Rightarrow> (fileResult path ActionReplace, w')))"

definition handleNoMatch ::
  "World \<Rightarrow> string \<Rightarrow> bool \<Rightarrow> bytes \<Rightarrow> bytes \<Rightarrow> TemplateRule list \<Rightarrow> FileResult \<times> World" where
  "handleNoMatch w path fix currentHeader content trules =
     (if length trules = 0 then (fileResult path ActionNone, w)
      else if fix
      then (let nb = upsertHeaderBeforeDirectives content (Content (trules ! 0)) True;
                action = (if length currentHeader > 0 then ActionReplace else ActionInsert)
            in case writeFile w path nb of
                 (Some err, w') \<Rightarrow> (fileError path err, w')
               | (None, w') \<Rightarrow> (fileResult path action, w'))
      else if length currentHeader > 0 then (fileResult path ActionReplace, w)
      else (fileResult path ActionInsert, w))"

text \<open>
  \<open>processFile\<close>: the result for one path and the file system afterwards; \<open>None\<close> when
  the call panics.
\<close>

definition processFile ::
  "FilePath \<Rightarrow> Options \<Rightarrow> World \<Rightarrow> string \<Rightarrow> bool \<Rightarrow> (FileResult \<times> World) option" where
  "processFile fp e w path fix =
     (if isTemplatePath fp e path then Some (fileResult path ActionNone, w)
      else (let rel = relativePath fp e path in
        if \<not> hasAnyTemplateForPath e rel then Some (fileResult path ActionNone, w)
        else (case readFile w path of
            Inl err \<Rightarrow> Some (fileError path err, w)
          | Inr content \<Rightarrow>
             (case handleNonUTF8File e path content of (fr, ok) \<Rightarrow>
                if \<not> ok then Some (fr, w)
                else (case renderTemplates e path of
                    None \<Rightarrow> None
                  | Some trulesAll \<Rightarrow>
                     (let trules = filterTemplatesForPath rel trulesAll in
                      if length trules = 0 then Some (fileResult path ActionNone, w)
                      else (case detectHeaderBlock content of (currentHeader, start, end) \<Rightarrow>
                        (case findMatchingTemplateIndex rel trules currentHeader of
                           Some matchedIdx \<Rightarrow>
                             Some (handleMatchedHeader e w path fix currentHeader
                                     (trules ! matchedIdx) content)
                         | None \<Rightarrow>
                             Some (handleNoMatch w path fix currentHeader content trules)))))))))"

section \<open>A small engine for concrete runs\<close>

text \<open>
  One rule for Go files with the given template, a Git collaborator with fixed answers,
  and a file system holding the single file \<open>hello.go\<close>. Paths are already clean and
  relative to the root.
\<close>

definition exFilePath :: FilePath where
  "exFilePath = \<lparr>Clean = (\<lambda>p. p), Rel = (\<lambda>root p. Some p)\<rparr>"

definition exGit :: "bool \<Rightarrow> GitMetadata" where
  "exGit touched =
     \<lparr>Author = (\<lambda>p. ''Alice''), CreationDate = (\<lambda>p. ''2019-05-05''),
      LastUpdateDate = (\<lambda>p. ''2024-02-02''), Touched = (\<lambda>p. touched)\<rparr>"

definition exRule :: "bytes \<Rightarrow> TemplateRule" where
  "exRule tmpl =
     \<lparr>TemplatePath = ''tmpl.txt'', Include = Some (\<lambda>rel. hasSuffix rel ''.go''),
      Exclude = None, Content = tmpl\<rparr>"

definition exOptions :: "bytes \<Rightarrow> bool \<Rightarrow> bool \<Rightarrow> Options" where
  "exOptions tmpl touched force =
     \<lparr>Root = ''.'', Rules = [exRule tmpl], Force = force, Verbose = False,
      Git = Some (exGit touched), RespectGit = True\<rparr>"

definition exWorld :: "bytes \<Rightarrow> World" where
  "exWorld content = \<lparr>files = [''hello.go'' \<mapsto> content], writeFails = (\<lambda>p. False)\<rparr>"

section \<open>Tokens and delimiters of the specification\<close>





definition digitCount :: "bytes \<Rightarrow> nat" where
  "digitCount s = length (filter (inClass digit) s)"












section \<open>Properties of the header matcher\<close>

text \<open>
  C10: on non-empty inputs \<open>headerSemanticallyMatches\<close> is an equivalence relation: it
  holds of \<open>(a, a)\<close>, its result for \<open>(a, b)\<close> is its result for \<open>(b, a)\<close>, and from
  \<open>(a, b)\<close> and \<open>(b, c)\<close> it holds of \<open>(a, c)\<close>.
\<close>

theorem headerSemanticallyMatches_equivalence:
  assumes "a \<noteq> []" and "b \<noteq> []" and "c \<noteq> []"
  shows "headerSemanticallyMatches a a
       \<and> headerSemanticallyMatches a b = headerSemanticallyMatches b a
       \<and> (headerSemanticallyMatches a b \<and> headerSemanticallyMatches b c
            \<longrightarrow> headerSemanticallyMatches a c)"
  using assms by (auto simp: headerSemanticallyMatches_def)

lemma sanitize_year_1999: "sanitize ''(c) 1999'' = ''(c) <YEAR>''"
  by code_simp

lemma sanitize_year_2024: "sanitize ''(c) 2024'' = ''(c) <YEAR>''"
  by code_simp

lemma sanitize_year_2001: "sanitize ''(c)  2001'' = ''(c) <YEAR>''"
  by code_simp

theorem headerSemanticallyMatches_equivalence_witness:
  "headerSemanticallyMatches ''(c) 1999'' ''(c) 1999''
   \<and> headerSemanticallyMatches ''(c) 1999'' ''(c) 2024''
   \<and> headerSemanticallyMatches ''(c) 2024'' ''(c) 1999''
   \<and> headerSemanticallyMatches ''(c) 2024'' ''(c)  2001''
   \<and> headerSemanticallyMatches ''(c) 1999'' ''(c)  2001''"
proof -
  have ab: "headerSemanticallyMatches ''(c) 1999'' ''(c) 2024''"
    by (simp add: headerSemanticallyMatches_def sanitize_year_1999 sanitize_year_2024)
  have bc: "headerSemanticallyMatches ''(c) 2024'' ''(c)  2001''"
    by (simp add: headerSemanticallyMatches_def sanitize_year_2024 sanitize_year_2001)
  from headerSemanticallyMatches_equivalence
         [of "''(c) 1999''" "''(c) 2024''" "''(c)  2001''"] ab bc
  show ?thesis by simp
qed








subsection \<open>The search at a byte no atom can take\<close>



















subsection \<open>Repetitions\<close>






























subsection \<open>Delimiters split every mask\<close>












subsection \<open>Tokens are left alone by the masks of other kinds\<close>


lemma digitCount_length: "digitCount a \<le> length a"
  by (simp add: digitCount_def)













subsection \<open>Headers that differ in tokens\<close>













subsection \<open>Headers that differ in a literal word\<close>























section \<open>Properties of the header locator\<close>

lemma indexByte_Some_less: "indexByte s d = Some n \<Longrightarrow> n < length s"
  by (induction s arbitrary: n) (auto split: if_splits)

lemma lineEndAt_bounds:
  "pos < length content \<Longrightarrow> pos < lineEndAt content pos \<and> lineEndAt content pos \<le> length content"
  by (auto simp: lineEndAt_def split: option.splits dest!: indexByte_Some_less)

lemma skipBlankAndDirectives_unfold:
  "skipBlankAndDirectives content pos =
     (if pos < length content
      then (if blankOrDirective (slice content pos (lineEndAt content pos))
            then skipBlankAndDirectives content (lineEndAt content pos) else pos)
      else pos)"
  by (subst skipBlankAndDirectives.simps)
     (simp add: Let_def lineEndAt_def blankOrDirective_def)

lemma skipBlankAndDirectives_induct [case_names step]:
  assumes "\<And>content pos.
      (pos < length content \<Longrightarrow> blankOrDirective (slice content pos (lineEndAt content pos))
        \<Longrightarrow> P content (lineEndAt content pos)) \<Longrightarrow> P content pos"
  shows "P content pos"
proof (induction content pos rule: skipBlankAndDirectives.induct)
  case (1 content pos)
  show ?case
  proof (rule assms)
    assume a: "pos < length content" "blankOrDirective (slice content pos (lineEndAt content pos))"
    show "P content (lineEndAt content pos)"
      using a by (intro "1.IH" [OF a(1) refl refl refl refl, folded lineEndAt_def])
                 (simp add: blankOrDirective_def lineEndAt_def)
  qed
qed

lemma skipBlankAndDirectives_bounds:
  "pos \<le> length content \<Longrightarrow>
     pos \<le> skipBlankAndDirectives content pos \<and> skipBlankAndDirectives content pos \<le> length content"
proof (induction content pos rule: skipBlankAndDirectives_induct)
  case (step content pos)
  show ?case
  proof (cases "pos < length content \<and> blankOrDirective (slice content pos (lineEndAt content pos))")
    case True
    with lineEndAt_bounds [of pos content] step.IH show ?thesis
      by (subst (1 2) skipBlankAndDirectives_unfold) auto
  next
    case False
    with step.prems show ?thesis
      by (subst (1 2) skipBlankAndDirectives_unfold) auto
  qed
qed

lemma findShebangEnd_le: "findShebangEnd content \<le> length content"
  by (auto simp: findShebangEnd_def split: option.splits dest!: indexByte_Some_less)

lemma readString_append: "readString s = (l, r, eof) \<Longrightarrow> s = l @ r"
proof (induction s arbitrary: l r eof)
  case Nil
  then show ?case by simp
next
  case (Cons c cs)
  show ?case
  proof (cases "c = NL")
    case True
    with Cons.prems show ?thesis by simp
  next
    case False
    obtain l' r' e' where rs: "readString cs = (l', r', e')"
      by (cases "readString cs") auto
    with False Cons.prems have "l = c # l'" "r = r'" by simp_all
    with Cons.IH [OF rs] show ?thesis by simp
  qed
qed

lemma collectHeader_unfold:
  "readString rd = (line, rest, eof) \<Longrightarrow>
   collectHeader rd =
     (if trimSpace line \<noteq> [] \<and> \<not> isLineComment line then []
      else if isGoPreambleDirective line then []
      else line @ (if eof then [] else collectHeader rest))"
  by (subst collectHeader.simps) simp

lemma collectHeader_prefix: "take (length (collectHeader rd)) rd = collectHeader rd"
proof (induction rd rule: collectHeader.induct)
  case (1 rd)
  obtain line rest eof where rs: "readString rd = (line, rest, eof)"
    by (cases "readString rd") auto
  note app = readString_append [OF rs]
  note ch = collectHeader_unfold [OF rs]
  show ?case
  proof (cases "(trimSpace line \<noteq> [] \<and> \<not> isLineComment line) \<or> isGoPreambleDirective line")
    case True
    then have "collectHeader rd = []" unfolding ch by auto
    then show ?thesis by simp
  next
    case False
    show ?thesis
    proof (cases eof)
      case True
      with False have "collectHeader rd = line" unfolding ch by auto
      then show ?thesis by (simp add: app)
    next
      case eofF: False
      have ih: "take (length (collectHeader rest)) rest = collectHeader rest"
        using "1.IH" [OF rs [symmetric] refl] False eofF by auto
      from False eofF have "collectHeader rd = line @ collectHeader rest"
        unfolding ch by auto
      then show ?thesis using ih by (simp add: app)
    qed
  qed
qed

lemma collectHeader_length: "length (collectHeader rd) \<le> length rd"
proof -
  have "length (take (length (collectHeader rd)) rd) = length (collectHeader rd)"
    by (simp only: collectHeader_prefix)
  then show ?thesis by simp
qed

text \<open>
  C9: the region \<open>(header, start, end)\<close> returned by \<open>detectHeaderBlock\<close> has
  \<open>start \<le> end \<le> len(content)\<close>, the header bytes are exactly \<open>content[start:end]\<close>,
  and they are empty exactly when \<open>start = end\<close>.
\<close>

theorem detectHeaderBlock_region:
  "(case detectHeaderBlock content of (header, start, end) \<Rightarrow>
      start \<le> end \<and> end \<le> length content
      \<and> header = slice content start end
      \<and> (header = [] \<longleftrightarrow> start = end))"
proof -
  define pos where "pos = skipBlankAndDirectives content (findShebangEnd content)"
  define buf where "buf = collectHeader (drop pos content)"
  have pos_le: "pos \<le> length content"
    unfolding pos_def using skipBlankAndDirectives_bounds [OF findShebangEnd_le] by blast
  have len: "length buf \<le> length content - pos"
    unfolding buf_def using collectHeader_length [of "drop pos content"] by simp
  have pre: "take (length buf) (drop pos content) = buf"
    unfolding buf_def by (rule collectHeader_prefix)
  have d: "detectHeaderBlock content =
             (if length buf = 0 then ([], 0, 0) else (buf, pos, pos + length buf))"
    by (simp add: detectHeaderBlock_def Let_def pos_def buf_def)
  show ?thesis
    unfolding d using pos_le len pre by (auto simp: slice_def)
qed

text \<open>
  C4 (as stated, refuted): for a script with a shebang line followed by code, the
  skipping stops at offset 10 and the accumulated block is empty, but the region
  reported is \<open>(nil, 0, 0)\<close>, not a region at the stop position.
\<close>

theorem detectHeaderBlock_stop_position_counterexample:
  "skipBlankAndDirectives ''#!/bin/sh\<newline>echo hi\<newline>'' (findShebangEnd ''#!/bin/sh\<newline>echo hi\<newline>'') = 10
   \<and> collectHeader (drop 10 ''#!/bin/sh\<newline>echo hi\<newline>'') = []
   \<and> detectHeaderBlock ''#!/bin/sh\<newline>echo hi\<newline>'' = ([], 0, 0)"
  by code_simp

text \<open>
  C4 (amended): when the accumulated leading comment block is empty (after skipping any
  shebang, blank lines and directive lines), \<open>detectHeaderBlock\<close> reports no header as
  the empty header with start and end offsets both 0, wherever the skipping stopped.
\<close>

theorem detectHeaderBlock_no_header:
  assumes "collectHeader (drop (skipBlankAndDirectives content (findShebangEnd content)) content) = []"
  shows "detectHeaderBlock content = ([], 0, 0)"
  using assms by (simp add: detectHeaderBlock_def Let_def)

theorem detectHeaderBlock_no_header_witness:
  "collectHeader (drop (skipBlankAndDirectives ''//go:build linux\<newline>\<newline>package main\<newline>''
        (findShebangEnd ''//go:build linux\<newline>\<newline>package main\<newline>''))
      ''//go:build linux\<newline>\<newline>package main\<newline>'') = []
   \<and> detectHeaderBlock ''//go:build linux\<newline>\<newline>package main\<newline>'' = ([], 0, 0)"
proof -
  have h: "collectHeader (drop (skipBlankAndDirectives ''//go:build linux\<newline>\<newline>package main\<newline>''
        (findShebangEnd ''//go:build linux\<newline>\<newline>package main\<newline>''))
      ''//go:build linux\<newline>\<newline>package main\<newline>'') = []"
    by code_simp
  from h detectHeaderBlock_no_header [OF h] show ?thesis by simp
qed


section \<open>Properties of the decision policy\<close>

lemma hasAnyTemplateIn_list_ex:
  "hasAnyTemplateIn trs rel = list_ex (\<lambda>tr. \<not> ruleSkipped tr rel) trs"
  by (induction trs) auto

lemma findMatchingFrom_None:
  "findMatchingFrom i rel trs h = None \<longleftrightarrow>
     \<not> list_ex (\<lambda>tr. \<not> ruleSkipped tr rel \<and> headerSemanticallyMatches h (Content tr)) trs"
  by (induction trs arbitrary: i) auto

lemma findMatchingFrom_Some:
  "findMatchingFrom i rel trs h = Some j \<Longrightarrow>
     i \<le> j \<and> j - i < length trs \<and> headerSemanticallyMatches h (Content (trs ! (j - i)))"
proof (induction trs arbitrary: i)
  case Nil
  then show ?case by simp
next
  case (Cons tr trs)
  show ?case
  proof (cases "\<not> ruleSkipped tr rel \<and> headerSemanticallyMatches h (Content tr)")
    case True
    with Cons.prems show ?thesis by auto
  next
    case False
    with Cons.prems have "findMatchingFrom (Suc i) rel trs h = Some j"
      by (auto split: if_splits)
    from Cons.IH [OF this] show ?thesis
      by (auto simp: Suc_diff_le)
  qed
qed

lemma filter_not_skipped:
  "list_ex (\<lambda>tr. \<not> ruleSkipped tr rel \<and> P tr) (filterTemplatesForPath rel trs)
     = list_ex P (filterTemplatesForPath rel trs)"
  by (auto simp: filterTemplatesForPath_def list_ex_iff)

text \<open>
  C8: when the content of a file fails the UTF-8 validity check, the result has action
  \<open>none\<close>, the file system is left as it was, and the result carries a warning if and
  only if the force option is set. The check is made by \<open>handleNonUTF8File\<close>;
  \<open>processFile\<close> reaches it for a readable file that is not a template source and that
  some rule accepts.
\<close>

theorem processFile_nonUTF8:
  assumes "\<not> utf8Valid content"
  shows "handleNonUTF8File e path content =
           (\<lparr>Path = path, Action = ActionNone, Err = None,
             Warning = (if Force e then ''non-UTF8/binary file, forced to check'' else [])\<rparr>, False)
       \<and> (\<not> isTemplatePath fp e path \<and> hasAnyTemplateForPath e (relativePath fp e path)
            \<and> files w path = Some content
          \<longrightarrow> (\<exists>r. processFile fp e w path fix = Some (r, w)
                  \<and> Action r = ActionNone \<and> Err r = None \<and> (Warning r \<noteq> [] \<longleftrightarrow> Force e)))"
  using assms
  by (auto simp: handleNonUTF8File_def processFile_def fileResult_def readFile_def Let_def)

lemma exNonUTF8: "\<not> utf8Valid [CHR 0xFF, CHR 0xFE, CHR 0xFD, NL, CHR ''p'', CHR ''k'', CHR ''g'']"
  by (simp add: byteBetween_def)

theorem processFile_nonUTF8_witness:
  "\<not> utf8Valid [CHR 0xFF, CHR 0xFE, CHR 0xFD, NL, CHR ''p'', CHR ''k'', CHR ''g'']
   \<and> (\<exists>r. processFile exFilePath (exOptions ''// header\<newline>'' True True)
             (exWorld [CHR 0xFF, CHR 0xFE, CHR 0xFD, NL, CHR ''p'', CHR ''k'', CHR ''g''])
             ''hello.go'' True
           = Some (r, exWorld [CHR 0xFF, CHR 0xFE, CHR 0xFD, NL, CHR ''p'', CHR ''k'', CHR ''g''])
         \<and> Action r = ActionNone \<and> Err r = None \<and> Warning r \<noteq> [])"
proof -
  let ?c = "[CHR 0xFF, CHR 0xFE, CHR 0xFD, NL, CHR ''p'', CHR ''k'', CHR ''g'']"
  let ?e = "exOptions ''// header\<newline>'' True True"
  have a: "\<not> isTemplatePath exFilePath ?e ''hello.go''"
    by (simp add: isTemplatePath_def exFilePath_def exOptions_def exRule_def)
  have b: "hasAnyTemplateForPath ?e (relativePath exFilePath ?e ''hello.go'')"
    by (simp add: hasAnyTemplateForPath_def relativePath_def exFilePath_def exOptions_def
          exRule_def ruleSkipped_def hasSuffix_def)
  have c: "files (exWorld ?c) ''hello.go'' = Some ?c"
    by (simp add: exWorld_def)
  have f: "Force ?e"
    by (simp add: exOptions_def)
  from processFile_nonUTF8 [OF exNonUTF8, of ?e "''hello.go''" exFilePath "exWorld ?c" True]
    a b c f exNonUTF8
  show ?thesis by simp
qed


lemma ruleSkipped_cong:
  "Include tr' = Include tr \<Longrightarrow> Exclude tr' = Exclude tr \<Longrightarrow> ruleSkipped tr' rel = ruleSkipped tr rel"
  by (simp add: ruleSkipped_def)

lemma renderTemplates_accepts:
  assumes "renderTemplates e path = Some trulesAll"
  shows "list_ex (\<lambda>tr. \<not> ruleSkipped tr rel) trulesAll = list_ex (\<lambda>tr. \<not> ruleSkipped tr rel) (Rules e)"
proof -
  from assms obtain g where g: "Git e = Some g"
    by (auto simp: renderTemplates_def split: option.splits)
  define f where "f = (\<lambda>tr :: TemplateRule.
     \<lparr>TemplatePath = TemplatePath tr, Include = Include tr, Exclude = Exclude tr,
      Content = replaceAllLit (replaceAllLit (replaceAllLit (Content tr) ''%author%''
                   (if Author g path = [] then ''unknown'' else Author g path))
                   ''%creation_date%'' (CreationDate g path))
                   ''%last_update_date%'' (LastUpdateDate g path)\<rparr>)"
  from assms g have m: "trulesAll = map f (Rules e)"
    by (simp add: renderTemplates_def Let_def f_def)
  have "\<And>tr. ruleSkipped (f tr) rel = ruleSkipped tr rel"
    by (rule ruleSkipped_cong) (simp_all add: f_def)
  then show ?thesis
    unfolding m by (simp add: list_ex_iff)
qed

text \<open>
  Once a readable, valid file with an accepting rule has been rendered for, the result
  is the one of \<open>handleMatchedHeader\<close> or \<open>handleNoMatch\<close>.
\<close>

lemma processFile_decision:
  assumes "\<not> isTemplatePath fp e path"
      and "hasAnyTemplateForPath e (relativePath fp e path)"
      and "files w path = Some content"
      and "utf8Valid content"
      and "renderTemplates e path = Some trulesAll"
  shows "processFile fp e w path fix =
           Some (let trules = filterTemplatesForPath (relativePath fp e path) trulesAll;
                     currentHeader = fst (detectHeaderBlock content)
                 in case findMatchingTemplateIndex (relativePath fp e path) trules currentHeader of
                      Some matchedIdx \<Rightarrow>
                        handleMatchedHeader e w path fix currentHeader (trules ! matchedIdx) content
                    | None \<Rightarrow> handleNoMatch w path fix currentHeader content trules)"
proof -
  let ?rel = "relativePath fp e path"
  have "list_ex (\<lambda>tr. \<not> ruleSkipped tr ?rel) trulesAll"
    using assms(2) renderTemplates_accepts [OF assms(5), of ?rel]
    by (simp add: hasAnyTemplateForPath_def hasAnyTemplateIn_list_ex)
  then have ne: "filterTemplatesForPath ?rel trulesAll \<noteq> []"
    by (auto simp: filterTemplatesForPath_def list_ex_iff filter_empty_conv)
  show ?thesis
    using assms ne
    by (auto simp: processFile_def readFile_def handleNonUTF8File_def Let_def
          split: prod.splits option.splits)
qed

text \<open>Neither handler writes in check mode.\<close>

lemma handleMatchedHeader_check:
  "handleMatchedHeader e w path False currentHeader rendered content = (fileResult path ActionNone, w)"
  by (simp add: handleMatchedHeader_def)

lemma handleNoMatch_check:
  "trules \<noteq> [] \<Longrightarrow>
   handleNoMatch w path False currentHeader content trules =
     (fileResult path (if currentHeader \<noteq> [] then ActionReplace else ActionInsert), w)"
  by (simp add: handleNoMatch_def)

lemma processFile_check_frame:
  "(case processFile fp e w path False of None \<Rightarrow> True | Some (r, w') \<Rightarrow> w' = w)"
  by (auto simp: processFile_def handleMatchedHeader_check handleNoMatch_check
        handleNonUTF8File_def Let_def
        split: option.splits sum.splits prod.splits if_splits)

text \<open>With a Git collaborator present the call does not panic.\<close>

lemma processFile_check_total:
  assumes "Git e \<noteq> None"
  shows "\<exists>r. processFile fp e w path False = Some (r, w)"
proof -
  from assms have "renderTemplates e path \<noteq> None"
    by (auto simp: renderTemplates_def Let_def)
  then obtain r w' where "processFile fp e w path False = Some (r, w')"
    by (cases "processFile fp e w path False")
       (auto simp: processFile_def Let_def split: if_splits sum.splits prod.splits option.splits)
  with processFile_check_frame [where fp = fp and e = e and w = w and path = path]
  show ?thesis by simp
qed

text \<open>
  C7: in check mode \<open>processFile\<close> never writes: whatever branch is taken, the file
  system afterwards is the one before (and with a Git collaborator present the call
  returns). And where the decision is reached (a readable,
  valid file that is not a template source and that some rule accepts), the action is
  \<open>none\<close> if a rendered rule matches the detected header semantically, otherwise
  \<open>replace\<close> if a header region was detected and \<open>insert\<close> if none was.
\<close>

theorem processFile_check_mode:
  "(case processFile fp e w path False of None \<Rightarrow> True | Some (r, w') \<Rightarrow> w' = w)
   \<and> (Git e \<noteq> None \<longrightarrow> (\<exists>r. processFile fp e w path False = Some (r, w)))
   \<and> (\<not> isTemplatePath fp e path \<and> hasAnyTemplateForPath e (relativePath fp e path)
        \<and> files w path = Some content \<and> utf8Valid content
        \<and> renderTemplates e path = Some trulesAll
      \<longrightarrow> processFile fp e w path False =
            Some (fileResult path
                    (if list_ex (\<lambda>tr. headerSemanticallyMatches (fst (detectHeaderBlock content)) (Content tr))
                          (filterTemplatesForPath (relativePath fp e path) trulesAll)
                     then ActionNone
                     else if fst (detectHeaderBlock content) \<noteq> [] then ActionReplace
                     else ActionInsert), w))"
proof (intro conjI impI)
  show "case processFile fp e w path False of None \<Rightarrow> True | Some (r, w') \<Rightarrow> w' = w"
    by (rule processFile_check_frame)
next
  assume "Git e \<noteq> None"
  then show "\<exists>r. processFile fp e w path False = Some (r, w)"
    by (rule processFile_check_total)
next
  let ?rel = "relativePath fp e path"
  let ?trules = "filterTemplatesForPath ?rel trulesAll"
  let ?h = "fst (detectHeaderBlock content)"
  assume a: "\<not> isTemplatePath fp e path \<and> hasAnyTemplateForPath e ?rel
        \<and> files w path = Some content \<and> utf8Valid content
        \<and> renderTemplates e path = Some trulesAll"
  then have d: "processFile fp e w path False =
      Some (case findMatchingTemplateIndex ?rel ?trules ?h of
              Some matchedIdx \<Rightarrow> handleMatchedHeader e w path False ?h (?trules ! matchedIdx) content
            | None \<Rightarrow> handleNoMatch w path False ?h content ?trules)"
    using processFile_decision [of fp e path w content trulesAll False] by (simp add: Let_def)
  have "list_ex (\<lambda>tr. \<not> ruleSkipped tr ?rel) trulesAll"
    using a renderTemplates_accepts [of e path trulesAll ?rel]
    by (simp add: hasAnyTemplateForPath_def hasAnyTemplateIn_list_ex)
  then have ne: "?trules \<noteq> []"
    by (auto simp: filterTemplatesForPath_def list_ex_iff filter_empty_conv)
  show "processFile fp e w path False =
            Some (fileResult path
                    (if list_ex (\<lambda>tr. headerSemanticallyMatches ?h (Content tr)) ?trules
                     then ActionNone
                     else if ?h \<noteq> [] then ActionReplace else ActionInsert), w)"
  proof (cases "findMatchingTemplateIndex ?rel ?trules ?h")
    case None
    then have "\<not> list_ex (\<lambda>tr. headerSemanticallyMatches ?h (Content tr)) ?trules"
      by (simp add: findMatchingTemplateIndex_def findMatchingFrom_None filter_not_skipped)
    with None ne show ?thesis
      unfolding d by (simp add: handleNoMatch_check)
  next
    case (Some j)
    then have "list_ex (\<lambda>tr. headerSemanticallyMatches ?h (Content tr)) ?trules"
      using findMatchingFrom_None [of 0 ?rel ?trules ?h]
      by (simp add: findMatchingTemplateIndex_def filter_not_skipped)
    with Some show ?thesis
      unfolding d by (simp add: handleMatchedHeader_check)
  qed
qed


lemma exReach:
  "\<not> isTemplatePath exFilePath (exOptions tmpl touched force) ''hello.go''"
  "relativePath exFilePath (exOptions tmpl touched force) ''hello.go'' = ''hello.go''"
  "hasAnyTemplateForPath (exOptions tmpl touched force) ''hello.go''"
  "files (exWorld content) ''hello.go'' = Some content"
  "filterTemplatesForPath ''hello.go'' [exRule t] = [exRule t]"
  by (simp_all add: isTemplatePath_def relativePath_def hasAnyTemplateForPath_def
        filterTemplatesForPath_def exFilePath_def exOptions_def exRule_def exWorld_def
        ruleSkipped_def hasSuffix_def)

lemma exRender:
  "renderTemplates (exOptions tmpl touched force) path =
     Some [exRule (replaceAllLit (replaceAllLit (replaceAllLit tmpl ''%author%'' ''Alice'')
                      ''%creation_date%'' ''2019-05-05'') ''%last_update_date%'' ''2024-02-02'')]"
  by (simp add: renderTemplates_def exOptions_def exGit_def exRule_def Let_def)

lemma exCheck_content: "utf8Valid ''package main\<newline>''"
  by code_simp

lemma exCheck_detect: "detectHeaderBlock ''package main\<newline>'' = ([], 0, 0)"
  by code_simp

theorem processFile_check_mode_witness:
  "processFile exFilePath (exOptions ''// Header\<newline>// Author: %author%\<newline>'' True False)
     (exWorld ''package main\<newline>'') ''hello.go'' False
   = Some (fileResult ''hello.go'' ActionInsert, exWorld ''package main\<newline>'')"
proof -
  let ?e = "exOptions ''// Header\<newline>// Author: %author%\<newline>'' True False"
  let ?w = "exWorld ''package main\<newline>''"
  from processFile_check_mode [where fp = exFilePath and e = ?e and w = ?w
         and path = "''hello.go''" and content = "''package main\<newline>''"]
    exReach(1) [of _ True False] exReach(2) [of _ True False] exReach(3) [of _ True False]
    exReach(4) exReach(5) exRender [of _ True False "''hello.go''"] exCheck_content exCheck_detect
  show ?thesis
    by (simp add: headerSemanticallyMatches_def)
qed

text \<open>With the respect-git option and an untouched file, a semantic match is left alone.\<close>

lemma handleMatchedHeader_untouched:
  assumes "headerSemanticallyMatches currentHeader (Content rendered)"
      and "Git e = Some g" and "RespectGit e" and "\<not> Touched g path"
  shows "handleMatchedHeader e w path fix currentHeader rendered content = (fileResult path ActionNone, w)"
  using assms by (simp add: handleMatchedHeader_def shouldSkipDueToGit_def)

text \<open>
  C2: in fix mode with the respect-git-touched option on, when the detected header
  semantically matches a rendered rule that applies to the file and the Touched signal
  is false, \<open>processFile\<close> returns action \<open>none\<close> without error and the file system is
  left as it was; in particular when the header is not byte-identical to the rule.
\<close>

theorem processFile_untouched_semantic_match:
  assumes "files w path = Some content"
      and "renderTemplates e path = Some trulesAll"
      and "Git e = Some g" and "RespectGit e" and "\<not> Touched g path"
      and "list_ex (\<lambda>tr. headerSemanticallyMatches (fst (detectHeaderBlock content)) (Content tr))
             (filterTemplatesForPath (relativePath fp e path) trulesAll)"
  shows "\<exists>r. processFile fp e w path True = Some (r, w) \<and> Action r = ActionNone \<and> Err r = None"
proof -
  let ?rel = "relativePath fp e path"
  let ?trules = "filterTemplatesForPath ?rel trulesAll"
  let ?h = "fst (detectHeaderBlock content)"
  consider (early) "isTemplatePath fp e path \<or> \<not> hasAnyTemplateForPath e ?rel"
    | (binary) "\<not> isTemplatePath fp e path" "hasAnyTemplateForPath e ?rel" "\<not> utf8Valid content"
    | (decide) "\<not> isTemplatePath fp e path" "hasAnyTemplateForPath e ?rel" "utf8Valid content"
    by blast
  then show ?thesis
  proof cases
    case early
    then show ?thesis
      by (auto simp: processFile_def fileResult_def Let_def)
  next
    case binary
    with assms(1) show ?thesis
      by (auto simp: processFile_def handleNonUTF8File_def readFile_def fileResult_def Let_def)
  next
    case decide
    from assms(6) obtain j where j: "findMatchingTemplateIndex ?rel ?trules ?h = Some j"
      using findMatchingFrom_None [of 0 ?rel ?trules ?h]
      by (auto simp: findMatchingTemplateIndex_def filter_not_skipped)
    then have m: "headerSemanticallyMatches ?h (Content (?trules ! j))"
      using findMatchingFrom_Some [of 0 ?rel ?trules ?h j]
      by (simp add: findMatchingTemplateIndex_def)
    have "processFile fp e w path True = Some (fileResult path ActionNone, w)"
      using processFile_decision [OF decide(1) decide(2) assms(1) decide(3) assms(2), of True]
        j handleMatchedHeader_untouched [OF m assms(3) assms(4) assms(5)]
      by (simp add: Let_def)
    then show ?thesis
      by (simp add: fileResult_def)
  qed
qed

lemma exStale_render:
  "replaceAllLit (replaceAllLit (replaceAllLit
       ''// Last update: %last_update_date%\<newline>// License: Apache-2.0\<newline>''
       ''%author%'' ''Alice'') ''%creation_date%'' ''2019-05-05'') ''%last_update_date%'' ''2024-02-02''
   = ''// Last update: 2024-02-02\<newline>// License: Apache-2.0\<newline>''"
  by code_simp

lemma exStale_detect:
  "detectHeaderBlock ''// Last update: 2020-01-01\<newline>// License: Apache-2.0\<newline>\<newline>package main\<newline>''
   = (''// Last update: 2020-01-01\<newline>// License: Apache-2.0\<newline>\<newline>'', 0, 51)"
  by code_simp

lemma exStale_sanitize_file:
  "sanitize ''// Last update: 2020-01-01\<newline>// License: Apache-2.0\<newline>\<newline>''
   = ''// Last update: <DATE> // License: Apache-2.0''"
  by code_simp

lemma exStale_sanitize_rule:
  "sanitize ''// Last update: 2024-02-02\<newline>// License: Apache-2.0\<newline>''
   = ''// Last update: <DATE> // License: Apache-2.0''"
  by code_simp

theorem processFile_untouched_semantic_match_witness:
  "\<exists>r. processFile exFilePath
          (exOptions ''// Last update: %last_update_date%\<newline>// License: Apache-2.0\<newline>'' False False)
          (exWorld ''// Last update: 2020-01-01\<newline>// License: Apache-2.0\<newline>\<newline>package main\<newline>'')
          ''hello.go'' True
        = Some (r, exWorld ''// Last update: 2020-01-01\<newline>// License: Apache-2.0\<newline>\<newline>package main\<newline>'')
      \<and> Action r = ActionNone \<and> Err r = None"
proof -
  let ?t = "''// Last update: %last_update_date%\<newline>// License: Apache-2.0\<newline>''"
  let ?c = "''// Last update: 2020-01-01\<newline>// License: Apache-2.0\<newline>\<newline>package main\<newline>''"
  let ?e = "exOptions ?t False False"
  have g: "Git ?e = Some (exGit False)" "RespectGit ?e" "\<not> Touched (exGit False) ''hello.go''"
    by (simp_all add: exOptions_def exGit_def)
  have m: "list_ex (\<lambda>tr. headerSemanticallyMatches (fst (detectHeaderBlock ?c)) (Content tr))
             (filterTemplatesForPath (relativePath exFilePath ?e ''hello.go'')
                [exRule ''// Last update: 2024-02-02\<newline>// License: Apache-2.0\<newline>''])"
    unfolding exReach(2) exReach(5)
    by (simp add: exStale_detect headerSemanticallyMatches_def exStale_sanitize_file
          exStale_sanitize_rule exRule_def)
  have r: "renderTemplates ?e ''hello.go'' =
             Some [exRule ''// Last update: 2024-02-02\<newline>// License: Apache-2.0\<newline>'']"
    by (simp only: exRender exStale_render)
  from processFile_untouched_semantic_match [OF exReach(4) r g m]
  show ?thesis .
qed


section \<open>Properties of the rewrite planner\<close>

lemma readString_length_indexByte:
  "length (fst (readString s)) = (case indexByte s NL of None \<Rightarrow> length s | Some n \<Rightarrow> n + 1)"
  by (induction s) (auto split: prod.splits option.splits)

lemma readString_eof_indexByte:
  "snd (snd (readString s)) \<longleftrightarrow> indexByte s NL = None"
  by (induction s) (auto split: prod.splits)

lemma readString_take:
  "fst (readString s) = take (length (fst (readString s))) s"
proof -
  obtain l r e where rs: "readString s = (l, r, e)"
    by (cases "readString s") auto
  from readString_append [OF rs] rs show ?thesis by simp
qed

lemma lineEndAt_readString:
  "pos \<le> length content \<Longrightarrow>
     lineEndAt content pos = pos + length (fst (readString (drop pos content)))"
  by (simp add: lineEndAt_def readString_length_indexByte split: option.splits)

lemma slice_line_readString:
  assumes "pos \<le> length content"
  shows "slice content pos (lineEndAt content pos) = fst (readString (drop pos content))"
proof -
  have "slice content pos (lineEndAt content pos)
          = take (length (fst (readString (drop pos content)))) (drop pos content)"
    using assms by (simp add: slice_def lineEndAt_readString)
  also have "\<dots> = fst (readString (drop pos content))"
    by (rule readString_take [symmetric])
  finally show ?thesis .
qed

lemma line_at_readString:
  assumes "pos \<le> length content" and "readString (drop pos content) = (line, rest, eof)"
  shows "lineEndAt content pos = pos + length line"
    and "slice content pos (pos + length line) = line"
    and "indexByte (drop pos content) NL = None \<longleftrightarrow> eof"
proof -
  show le: "lineEndAt content pos = pos + length line"
    using assms lineEndAt_readString [of pos content] by simp
  show "slice content pos (pos + length line) = line"
    using assms slice_line_readString [of pos content] le by simp
  show "indexByte (drop pos content) NL = None \<longleftrightarrow> eof"
    using assms(2) readString_eof_indexByte [of "drop pos content"] by simp
qed

lemma skipBlankAndDirectives_keep:
  assumes "pos < length content" and "readString (drop pos content) = (line, rest, eof)"
      and "blankOrDirective line"
  shows "skipBlankAndDirectives content pos = skipBlankAndDirectives content (pos + length line)"
proof -
  from assms(1) have le: "pos \<le> length content" by simp
  show ?thesis
    using assms(1) assms(3)
    by (subst skipBlankAndDirectives_unfold) (simp add: line_at_readString [OF le assms(2)])
qed

lemma skipBlankAndDirectives_stop:
  assumes "pos \<le> length content" and "readString (drop pos content) = (line, rest, eof)"
      and "\<not> blankOrDirective line"
  shows "skipBlankAndDirectives content pos = pos"
  using assms(3)
  by (subst skipBlankAndDirectives_unfold) (simp add: line_at_readString [OF assms(1) assms(2)])

lemma scanLines_unfold:
  "scanLines keep middle i =
     (if i < length middle
      then (if keep (slice middle i (lineEndAt middle i))
            then (if indexByte (drop i middle) NL = None then lineEndAt middle i
                  else scanLines keep middle (lineEndAt middle i))
            else i)
      else i)"
  by (subst scanLines.simps) (simp add: Let_def lineEndAt_def)

lemma scanLines_keep:
  assumes "i < length middle" and "readString (drop i middle) = (line, rest, False)"
      and "keep line"
  shows "scanLines keep middle i = scanLines keep middle (i + length line)"
proof -
  from assms(1) have le: "i \<le> length middle" by simp
  show ?thesis
    using assms(1) assms(3)
    by (subst scanLines_unfold) (simp add: line_at_readString [OF le assms(2)])
qed

lemma scanLines_stop:
  assumes "i \<le> length middle" and "readString (drop i middle) = (line, rest, eof)"
      and "\<not> keep line"
  shows "scanLines keep middle i = i"
  using assms(3)
  by (subst scanLines_unfold) (simp add: line_at_readString [OF assms(1) assms(2)])


lemma trimSpace_Nil: "trimSpace [] = []"
  by (simp add: trimSpace_def trimSpaceLeft.simps trimSpaceRight.simps
        leadingSpace_Nil trailingSpace_Nil)

lemma not_comment_not_blank: "\<not> isLineComment line \<Longrightarrow> trimSpace line \<noteq> []"
  by (auto simp: isLineComment_def Let_def)

lemma not_comment_not_directive: "\<not> isLineComment line \<Longrightarrow> \<not> isGoPreambleDirective line"
  by (auto simp: isLineComment_def isGoPreambleDirective_def Let_def split: if_splits)

lemma not_comment_not_kept:
  assumes "\<not> isLineComment line"
  shows "\<not> blankOrDirective line" and "\<not> blankOrCommentPrefix line" and "\<not> blankOrLineComment line"
  using assms not_comment_not_blank [OF assms] not_comment_not_directive [OF assms]
  by (auto simp: blankOrDirective_def blankOrCommentPrefix_def blankOrLineComment_def
        isLineComment_def Let_def split: if_splits)

lemma plusBuild_directive: "blankOrDirective ''// +build linux\<newline>''"
  by code_simp

lemma blank_line_kept: "blankOrDirective [NL]"
  by code_simp

lemma plusBuild_trimmed:
  "trimSet ''// +build linux\<newline>\<newline>'' [NL, CHR 0x0D] = ''// +build linux''"
  by code_simp

text \<open>
  C6: for a content that starts with the directive line \<open>// +build linux\<close>, a blank
  line and then code (a first line that is neither blank nor a comment, so that no header
  is detected), the rewrite is: the rendered header (ended by a newline), one blank line,
  \<open>// +build linux\<close>, one blank line, and the rest of the file unchanged.
\<close>

theorem upsert_legacy_build_directive:
  assumes "\<not> isLineComment (fst (readString code))"
  shows "fst (detectHeaderBlock (''// +build linux\<newline>\<newline>'' @ code)) = []
       \<and> upsertHeaderBeforeDirectives (''// +build linux\<newline>\<newline>'' @ code) header True =
           header @ (if hasSuffix header [NL] then [] else [NL]) @ [NL]
           @ ''// +build linux\<newline>'' @ [NL] @ code"
proof -
  define content where "content = ''// +build linux\<newline>\<newline>'' @ code"
  obtain line rest eof where rs: "readString code = (line, rest, eof)"
    by (cases "readString code") auto
  with assms have nc: "\<not> isLineComment line" by simp
  note nk = not_comment_not_kept [OF nc]
  have len: "17 \<le> length content"
    by (simp add: content_def)
  have r0: "readString (drop 0 content) = (''// +build linux\<newline>'', NL # code, False)"
    by (simp add: content_def)
  have r16: "readString (drop 16 content) = ([NL], code, False)"
    by (simp add: content_def)
  have r17: "readString (drop 17 content) = (line, rest, eof)"
    using rs by (simp add: content_def)
  have n16: "0 + length ''// +build linux\<newline>'' = 16" and n17: "16 + length [NL] = 17"
    by simp_all
  have skip: "skipBlankAndDirectives content 0 = 17"
  proof -
    have "skipBlankAndDirectives content 0
            = skipBlankAndDirectives content (0 + length ''// +build linux\<newline>'')"
      using len by (intro skipBlankAndDirectives_keep [OF _ r0 plusBuild_directive]) auto
    also have "\<dots> = skipBlankAndDirectives content (16 + length [NL])"
      unfolding n16 using len by (intro skipBlankAndDirectives_keep [OF _ r16 blank_line_kept]) auto
    also have "\<dots> = 17"
      unfolding n17 using len by (intro skipBlankAndDirectives_stop [OF _ r17 nk(1)])
    finally show ?thesis .
  qed
  have dirs: "scanLines blankOrDirective content 0 = 17"
  proof -
    have "scanLines blankOrDirective content 0
            = scanLines blankOrDirective content (0 + length ''// +build linux\<newline>'')"
      using len
      by (intro scanLines_keep [where keep = blankOrDirective, OF _ r0 plusBuild_directive]) auto
    also have "\<dots> = scanLines blankOrDirective content (16 + length [NL])"
      unfolding n16 using len
      by (intro scanLines_keep [where keep = blankOrDirective, OF _ r16 blank_line_kept]) auto
    also have "\<dots> = 17"
      unfolding n17 using len
      by (intro scanLines_stop [where keep = blankOrDirective, OF _ r17 nk(1)])
    finally show ?thesis .
  qed
  have comm: "scanLines blankOrCommentPrefix content 17 = 17"
    using len by (intro scanLines_stop [where keep = blankOrCommentPrefix, OF _ r17 nk(2)])
  have sheb: "findShebangEnd content = 0"
    by (simp add: findShebangEnd_def hasPrefix_def content_def)
  have buf: "collectHeader (drop 17 content) = []"
    using collectHeader_unfold [OF r17] nc not_comment_not_blank [OF nc] by simp
  have det: "detectHeaderBlock content = ([], 0, 0)"
    by (simp add: detectHeaderBlock_def sheb skip buf)
  have parts: "take 17 content = ''// +build linux\<newline>\<newline>''" "drop 17 content = code"
    by (simp_all add: content_def)
  have up: "upsertHeaderBeforeDirectives content header True =
      assemble [] 0 header ''// +build linux\<newline>\<newline>'' [] [] code"
    by (simp add: upsertHeaderBeforeDirectives_def det sheb dirs comm parts slice_def)
  have "fst (detectHeaderBlock content) = []
       \<and> upsertHeaderBeforeDirectives content header True =
           header @ (if hasSuffix header [NL] then [] else [NL]) @ [NL]
           @ ''// +build linux\<newline>'' @ [NL] @ code"
    unfolding up det
    by (simp add: assemble_def plusBuild_trimmed trimSpace_Nil trimSet_def trimLeftSet_def
          trimRightSet_def)
  then show ?thesis
    unfolding content_def .
qed

lemma exBuild_code: "\<not> isLineComment (fst (readString ''package main\<newline>''))"
  by code_simp

theorem upsert_legacy_build_directive_witness:
  "\<not> isLineComment (fst (readString ''package main\<newline>''))
   \<and> upsertHeaderBeforeDirectives ''// +build linux\<newline>\<newline>package main\<newline>'' ''// H\<newline>'' True
     = ''// H\<newline>\<newline>// +build linux\<newline>\<newline>package main\<newline>''"
  using upsert_legacy_build_directive [OF exBuild_code, of "''// H\<newline>''"] exBuild_code
  by (simp add: hasSuffix_def)


lemma indexByte_append_Some: "indexByte a d = Some n \<Longrightarrow> indexByte (a @ b) d = Some n"
  by (induction a arbitrary: n) (auto split: if_splits)

lemma indexByte_take: "indexByte s d = Some n \<Longrightarrow> n < k \<Longrightarrow> indexByte (take k s) d = Some n"
proof (induction s arbitrary: n k)
  case Nil
  then show ?case by simp
next
  case (Cons c cs)
  then show ?case
    by (cases k) (auto split: if_splits)
qed

lemma findShebangEnd_after_removal:
  assumes sb: "hasPrefix content ''#!''" and nl: "indexByte content NL = Some nl"
      and st: "nl + 1 \<le> start"
  shows "findShebangEnd (take start content @ rest) = nl + 1"
    and "take (nl + 1) (take start content @ rest) = take (nl + 1) content"
proof -
  from nl have lt: "nl < length content" by (rule indexByte_Some_less)
  from sb obtain r where c: "content = CHR ''#'' # CHR ''!'' # r"
    by (cases content; cases "tl content") (auto simp: hasPrefix_def)
  with nl have "2 \<le> nl" by (auto split: if_splits)
  with st have "2 \<le> start" by simp
  then have p: "hasPrefix (take start content @ rest) ''#!''"
    using c by (cases start; cases "start - 1") (auto simp: hasPrefix_def)
  have i: "indexByte (take start content @ rest) NL = Some nl"
    using indexByte_take [OF nl, of start] st by (intro indexByte_append_Some) simp
  show "findShebangEnd (take start content @ rest) = nl + 1"
    by (simp add: findShebangEnd_def p i)
  show "take (nl + 1) (take start content @ rest) = take (nl + 1) content"
    using st lt by (simp add: min_def)
qed

text \<open>
  A shebang line that ends with a newline stays the first line, and the line after it is
  blank, before the header.
\<close>

lemma assemble_shebang:
  "0 < n \<Longrightarrow> \<exists>tail. assemble head n header d t p r = head @ [NL] @ header @ tail"
  by (simp add: assemble_def)

lemma upsert_keeps_terminated_shebang:
  assumes "hasPrefix content ''#!''" and "indexByte content NL = Some nl"
  shows "\<exists>tail. upsertHeaderBeforeDirectives content header preserveExisting
           = take (nl + 1) content @ [NL] @ header @ tail"
proof -
  obtain existing start end' where d: "detectHeaderBlock content = (existing, start, end')"
    by (cases "detectHeaderBlock content") auto
  have sheb: "findShebangEnd content = nl + 1"
    using assms by (simp add: findShebangEnd_def)
  show ?thesis
  proof (cases "0 < length existing \<and> nl + 1 \<le> start")
    case True
    then have st: "nl + 1 \<le> start" by simp
    note rm = findShebangEnd_after_removal [OF assms st, of "drop end' content"]
    show ?thesis
      unfolding upsertHeaderBeforeDirectives_def d prod.case Let_def sheb if_P [OF True] rm
      by (rule assemble_shebang) simp
  next
    case False
    show ?thesis
      unfolding upsertHeaderBeforeDirectives_def d prod.case Let_def sheb if_not_P [OF False]
      by (rule assemble_shebang) simp
  qed
qed

text \<open>
  C5 (the code at the failing input): a script that consists of a shebang line without a
  final newline. The output starts with the shebang line, but the header follows on the
  very next line: there is no blank line between them.
\<close>

theorem upsert_unterminated_shebang:
  "upsertHeaderBeforeDirectives ''#!/bin/sh'' ''# header\<newline>'' True
     = ''#!/bin/sh\<newline># header\<newline>\<newline>''"
  by code_simp

section \<open>Running fix mode twice\<close>

lemma exFix_noMatch:
  assumes "utf8Valid c"
      and "replaceAllLit (replaceAllLit (replaceAllLit tmpl ''%author%'' ''Alice'')
              ''%creation_date%'' ''2019-05-05'') ''%last_update_date%'' ''2024-02-02'' = t"
      and "detectHeaderBlock c = (h, s, e)"
      and "\<not> headerSemanticallyMatches h t"
      and "upsertHeaderBeforeDirectives c t True = out"
  shows "processFile exFilePath (exOptions tmpl touched force) (exWorld c) ''hello.go'' True
           = Some (fileResult ''hello.go'' (if length h > 0 then ActionReplace else ActionInsert),
                   exWorld out)"
proof -
  let ?e = "exOptions tmpl touched force"
  have r: "renderTemplates ?e ''hello.go'' = Some [exRule t]"
    by (simp only: exRender assms(2))
  have a: "hasAnyTemplateForPath ?e (relativePath exFilePath ?e ''hello.go'')"
    by (simp only: exReach)
  have w: "writeFile (exWorld c) ''hello.go'' out = (None, exWorld out)"
    by (simp add: writeFile_def exWorld_def)
  have c: "Content (exRule t) = t" "\<not> ruleSkipped (exRule t) ''hello.go''"
    by (simp_all add: exRule_def ruleSkipped_def hasSuffix_def)
  show ?thesis
    unfolding processFile_decision [OF exReach(1) a exReach(4) assms(1) r] exReach(2) exReach(5)
    by (simp add: assms(3) assms(4) assms(5) findMatchingTemplateIndex_def handleNoMatch_def c w)
qed

lemma exFix_structural:
  assumes "utf8Valid c"
      and "replaceAllLit (replaceAllLit (replaceAllLit tmpl ''%author%'' ''Alice'')
              ''%creation_date%'' ''2019-05-05'') ''%last_update_date%'' ''2024-02-02'' = t"
      and "detectHeaderBlock c = (h, s, e)"
      and "headerSemanticallyMatches h t"
      and "headersStructurallyEqual h t"
  shows "processFile exFilePath (exOptions tmpl touched force) (exWorld c) ''hello.go'' True
           = Some (fileResult ''hello.go'' ActionNone, exWorld c)"
proof -
  let ?e = "exOptions tmpl touched force"
  have r: "renderTemplates ?e ''hello.go'' = Some [exRule t]"
    by (simp only: exRender assms(2))
  have a: "hasAnyTemplateForPath ?e (relativePath exFilePath ?e ''hello.go'')"
    by (simp only: exReach)
  have c: "Content (exRule t) = t" "\<not> ruleSkipped (exRule t) ''hello.go''"
    by (simp_all add: exRule_def ruleSkipped_def hasSuffix_def)
  show ?thesis
    unfolding processFile_decision [OF exReach(1) a exReach(4) assms(1) r] exReach(2) exReach(5)
    by (simp add: assms(3) assms(4) assms(5) findMatchingTemplateIndex_def handleMatchedHeader_def c)
qed

lemma exOld_valid:
  "utf8Valid ''// old\<newline>\<newline>package main\<newline>''"
  "utf8Valid ''// wanted\<newline>\<newline>// old\<newline>\<newline>package main\<newline>''"
  by code_simp+

lemma exOld_render:
  "replaceAllLit (replaceAllLit (replaceAllLit ''// wanted\<newline>'' ''%author%'' ''Alice'')
      ''%creation_date%'' ''2019-05-05'') ''%last_update_date%'' ''2024-02-02'' = ''// wanted\<newline>''"
  by code_simp

lemma exOld_detect1:
  "detectHeaderBlock ''// old\<newline>\<newline>package main\<newline>'' = (''// old\<newline>\<newline>'', 0, 8)"
  by code_simp

lemma exOld_detect2:
  "detectHeaderBlock ''// wanted\<newline>\<newline>// old\<newline>\<newline>package main\<newline>''
     = (''// wanted\<newline>\<newline>// old\<newline>\<newline>'', 0, 19)"
  by code_simp

lemma exOld_sanitize:
  "sanitize ''// old\<newline>\<newline>'' = ''// old''"
  "sanitize ''// wanted\<newline>'' = ''// wanted''"
  "sanitize ''// wanted\<newline>\<newline>// old\<newline>\<newline>'' = ''// wanted // old''"
  by code_simp+

lemma exOld_upsert1:
  "upsertHeaderBeforeDirectives ''// old\<newline>\<newline>package main\<newline>'' ''// wanted\<newline>'' True
     = ''// wanted\<newline>\<newline>// old\<newline>\<newline>package main\<newline>''"
  by code_simp

lemma exOld_upsert2:
  "upsertHeaderBeforeDirectives ''// wanted\<newline>\<newline>// old\<newline>\<newline>package main\<newline>'' ''// wanted\<newline>'' True
     = ''// wanted\<newline>\<newline>// wanted\<newline>\<newline>// old\<newline>\<newline>package main\<newline>''"
  by code_simp

text \<open>
  C3 (the code at the failing input): the file \<open>// old\<close>, blank line, \<open>package main\<close>
  with the template \<open>// wanted\<close>. The first fix run replaces the header and keeps the old
  comment below it. The second run, on the bytes the first one wrote, reports
  \<open>replace\<close> again and writes different bytes: the header is now there twice.
\<close>

theorem processFile_fix_twice_grows:
  "processFile exFilePath (exOptions ''// wanted\<newline>'' True False)
     (exWorld ''// old\<newline>\<newline>package main\<newline>'') ''hello.go'' True
   = Some (fileResult ''hello.go'' ActionReplace,
           exWorld ''// wanted\<newline>\<newline>// old\<newline>\<newline>package main\<newline>'')
   \<and> processFile exFilePath (exOptions ''// wanted\<newline>'' True False)
     (exWorld ''// wanted\<newline>\<newline>// old\<newline>\<newline>package main\<newline>'') ''hello.go'' True
   = Some (fileResult ''hello.go'' ActionReplace,
           exWorld ''// wanted\<newline>\<newline>// wanted\<newline>\<newline>// old\<newline>\<newline>package main\<newline>'')"
proof -
  have m1: "\<not> headerSemanticallyMatches ''// old\<newline>\<newline>'' ''// wanted\<newline>''"
    by (simp add: headerSemanticallyMatches_def exOld_sanitize)
  have m2: "\<not> headerSemanticallyMatches ''// wanted\<newline>\<newline>// old\<newline>\<newline>'' ''// wanted\<newline>''"
    by (simp add: headerSemanticallyMatches_def exOld_sanitize)
  from exFix_noMatch [OF exOld_valid(1) exOld_render exOld_detect1 m1 exOld_upsert1, of True False]
       exFix_noMatch [OF exOld_valid(2) exOld_render exOld_detect2 m2 exOld_upsert2, of True False]
  show ?thesis by simp
qed


text \<open>
  For comparison, the file without any comment at its top (scenario 1 of the
  specification): the first run inserts the header, the second one leaves the result
  alone.
\<close>

lemma exNew_valid:
  "utf8Valid ''package main\<newline>''"
  "utf8Valid ''// Header\<newline>// Author: Alice\<newline>\<newline>package main\<newline>''"
  by code_simp+

lemma exNew_render:
  "replaceAllLit (replaceAllLit (replaceAllLit ''// Header\<newline>// Author: %author%\<newline>'' ''%author%'' ''Alice'')
      ''%creation_date%'' ''2019-05-05'') ''%last_update_date%'' ''2024-02-02''
     = ''// Header\<newline>// Author: Alice\<newline>''"
  by code_simp

lemma exNew_detect:
  "detectHeaderBlock ''package main\<newline>'' = ([], 0, 0)"
  "detectHeaderBlock ''// Header\<newline>// Author: Alice\<newline>\<newline>package main\<newline>''
     = (''// Header\<newline>// Author: Alice\<newline>\<newline>'', 0, 28)"
  by code_simp+

lemma exNew_sanitize:
  "sanitize ''// Header\<newline>// Author: Alice\<newline>\<newline>'' = ''// Header // Author: Alice''"
  "sanitize ''// Header\<newline>// Author: Alice\<newline>'' = ''// Header // Author: Alice''"
  by code_simp+

lemma exNew_structural:
  "headersStructurallyEqual ''// Header\<newline>// Author: Alice\<newline>\<newline>'' ''// Header\<newline>// Author: Alice\<newline>''"
  by code_simp

lemma exNew_upsert:
  "upsertHeaderBeforeDirectives ''package main\<newline>'' ''// Header\<newline>// Author: Alice\<newline>'' True
     = ''// Header\<newline>// Author: Alice\<newline>\<newline>package main\<newline>''"
  by code_simp

lemma processFile_fix_twice_insert:
  "processFile exFilePath (exOptions ''// Header\<newline>// Author: %author%\<newline>'' True False)
     (exWorld ''package main\<newline>'') ''hello.go'' True
   = Some (fileResult ''hello.go'' ActionInsert,
           exWorld ''// Header\<newline>// Author: Alice\<newline>\<newline>package main\<newline>'')
   \<and> processFile exFilePath (exOptions ''// Header\<newline>// Author: %author%\<newline>'' True False)
     (exWorld ''// Header\<newline>// Author: Alice\<newline>\<newline>package main\<newline>'') ''hello.go'' True
   = Some (fileResult ''hello.go'' ActionNone,
           exWorld ''// Header\<newline>// Author: Alice\<newline>\<newline>package main\<newline>'')"
proof -
  have m1: "\<not> headerSemanticallyMatches [] ''// Header\<newline>// Author: Alice\<newline>''"
    by (simp add: headerSemanticallyMatches_def)
  have m2: "headerSemanticallyMatches ''// Header\<newline>// Author: Alice\<newline>\<newline>''
              ''// Header\<newline>// Author: Alice\<newline>''"
    by (simp add: headerSemanticallyMatches_def exNew_sanitize)
  from exFix_noMatch [OF exNew_valid(1) exNew_render exNew_detect(1) m1 exNew_upsert, of True False]
       exFix_structural [OF exNew_valid(2) exNew_render exNew_detect(2) m2 exNew_structural, of True False]
  show ?thesis by simp
qed

end
